theory Spec2Isabelle
  imports Complex_Main
begin

section \<open>The wheel animation of CarViewer.tsx\<close>

text \<open>
  The embedding follows \<^verbatim>\<open>src/app/components/CarViewer.tsx\<close>: the three refs that carry
  state from frame to frame (\<^verbatim>\<open>steeringAngleRef\<close>, \<^verbatim>\<open>wheelRotationRef\<close>, \<^verbatim>\<open>keysPressed\<close>),
  the list of wheel references \<^verbatim>\<open>wheelsRef\<close>, the callback of \<^verbatim>\<open>loader.load\<close> that fills
  it, the key handlers and the body of \<^verbatim>\<open>animate\<close>.

  JavaScript numbers are modelled as \<^typ>\<open>real\<close>: arithmetic is exact, the rounding of
  IEEE doubles, infinities and NaN are not modelled. Strings are \<^typ>\<open>string\<close>.
\<close>

subsection \<open>The parts of three.js the animation uses\<close>

text \<open>
  \<^verbatim>\<open>THREE.Vector3\<close>, \<^verbatim>\<open>THREE.Euler\<close> and \<^verbatim>\<open>THREE.Quaternion\<close> are classes of the rendering
  library, with the fields below. The three methods the animation calls are written out
  as the library computes them: \<^verbatim>\<open>setFromEuler\<close>, \<^verbatim>\<open>setFromAxisAngle\<close> (the axis is taken
  as given, it is not normalised) and \<^verbatim>\<open>multiply\<close> (\<^verbatim>\<open>q.multiply(p)\<close> is the Hamilton
  product \<open>q * p\<close>, stored in \<open>q\<close>).
\<close>

record vector3 =
  vx :: real
  vy :: real
  vz :: real

datatype euler_order = XYZ | YXZ | ZXY | ZYX | YZX | XZY

record euler =
  ex :: real
  ey :: real
  ez :: real
  order :: euler_order

record quat =
  qx :: real
  qy :: real
  qz :: real
  qw :: real

definition identityQ :: quat where
  \<comment> \<open>\<^verbatim>\<open>new THREE.Quaternion()\<close>\<close>
  "identityQ = \<lparr>qx = 0, qy = 0, qz = 0, qw = 1\<rparr>"

definition setFromEuler :: "euler \<Rightarrow> quat" where
  "setFromEuler e =
     (let c1 = cos (ex e / 2); c2 = cos (ey e / 2); c3 = cos (ez e / 2);
          s1 = sin (ex e / 2); s2 = sin (ey e / 2); s3 = sin (ez e / 2)
      in case order e of
           XYZ \<Rightarrow> \<lparr>qx = s1 * c2 * c3 + c1 * s2 * s3, qy = c1 * s2 * c3 - s1 * c2 * s3,
                   qz = c1 * c2 * s3 + s1 * s2 * c3, qw = c1 * c2 * c3 - s1 * s2 * s3\<rparr>
         | YXZ \<Rightarrow> \<lparr>qx = s1 * c2 * c3 + c1 * s2 * s3, qy = c1 * s2 * c3 - s1 * c2 * s3,
                   qz = c1 * c2 * s3 - s1 * s2 * c3, qw = c1 * c2 * c3 + s1 * s2 * s3\<rparr>
         | ZXY \<Rightarrow> \<lparr>qx = s1 * c2 * c3 - c1 * s2 * s3, qy = c1 * s2 * c3 + s1 * c2 * s3,
                   qz = c1 * c2 * s3 + s1 * s2 * c3, qw = c1 * c2 * c3 - s1 * s2 * s3\<rparr>
         | ZYX \<Rightarrow> \<lparr>qx = s1 * c2 * c3 - c1 * s2 * s3, qy = c1 * s2 * c3 + s1 * c2 * s3,
                   qz = c1 * c2 * s3 - s1 * s2 * c3, qw = c1 * c2 * c3 + s1 * s2 * s3\<rparr>
         | YZX \<Rightarrow> \<lparr>qx = s1 * c2 * c3 + c1 * s2 * s3, qy = c1 * s2 * c3 + s1 * c2 * s3,
                   qz = c1 * c2 * s3 - s1 * s2 * c3, qw = c1 * c2 * c3 - s1 * s2 * s3\<rparr>
         | XZY \<Rightarrow> \<lparr>qx = s1 * c2 * c3 - c1 * s2 * s3, qy = c1 * s2 * c3 - s1 * c2 * s3,
                   qz = c1 * c2 * s3 + s1 * s2 * c3, qw = c1 * c2 * c3 + s1 * s2 * s3\<rparr>)"

definition setFromAxisAngle :: "vector3 \<Rightarrow> real \<Rightarrow> quat" where
  "setFromAxisAngle axis angle =
     (let halfAngle = angle / 2; s = sin halfAngle
      in \<lparr>qx = vx axis * s, qy = vy axis * s, qz = vz axis * s, qw = cos halfAngle\<rparr>)"

definition multiply :: "quat \<Rightarrow> quat \<Rightarrow> quat" where
  "multiply a b =
     \<lparr>qx = qx a * qw b + qw a * qx b + qy a * qz b - qz a * qy b,
      qy = qy a * qw b + qw a * qy b + qz a * qx b - qx a * qz b,
      qz = qz a * qw b + qw a * qz b + qx a * qy b - qy a * qx b,
      qw = qw a * qw b - qx a * qx b - qy a * qy b - qz a * qz b\<rparr>"

subsection \<open>Scene nodes, configuration and the state of the viewer\<close>

text \<open>
  A scene node carries its name, its authored Euler rotation, its orientation quaternion
  and the slot \<^verbatim>\<open>userData.initialRotation\<close>, which is absent until the load callback
  fills it. The loaded model is the list of its nodes in the order \<^verbatim>\<open>traverse\<close> visits
  them; a reference to a node is its position in that list, so \<^verbatim>\<open>wheelsRef\<close> is a list of
  positions and a write through a reference is a list update at that position.
\<close>

record object3d =
  name :: string
  rotation :: euler
  quaternion :: quat
  initialRotation :: "euler option"

datatype axis = AxisX | AxisY | AxisZ

text \<open>The four \<^verbatim>\<open>useState\<close> values of the debug panel; the effect closes over them.\<close>

record config =
  steeringAxis :: axis
  rotationAxis :: axis
  manualSteeringAngle :: real
  manualRotationSpeed :: real

definition defaultConfig :: config where
  "defaultConfig = \<lparr>steeringAxis = AxisY, rotationAxis = AxisX,
                     manualSteeringAngle = 0, manualRotationSpeed = 0.05\<rparr>"

record viewer =
  wheelsRef :: "nat list"
  steeringAngleRef :: real
  keysPressed :: "string set"
  wheelRotationRef :: real
  scene :: "object3d list"

definition initialViewer :: viewer where
  "initialViewer = \<lparr>wheelsRef = [], steeringAngleRef = 0, keysPressed = {},
                     wheelRotationRef = 0, scene = []\<rparr>"

subsection \<open>The load callback (lines 139 to 206)\<close>

definition startsWith :: "string \<Rightarrow> string \<Rightarrow> bool" where
  "startsWith s p = (take (length p) s = p)"

text \<open>
  Lines 153 to 155: the initial rotation is stored once; a node that already has one
  keeps it.
\<close>

definition captureInitialRotation :: "object3d \<Rightarrow> object3d" where
  "captureInitialRotation child =
     (case initialRotation child of
        None \<Rightarrow> child\<lparr>initialRotation := Some (rotation child)\<rparr>
      | Some _ \<Rightarrow> child)"

text \<open>
  The callback of \<^verbatim>\<open>model.traverse\<close>, as far as it touches wheels: a node whose name starts
  with \<^verbatim>\<open>wheel_\<close> is pushed on \<^verbatim>\<open>wheelsRef\<close> and gets its initial rotation stored. The
  settings of shadows and materials are not modelled. The first argument is the position
  of the node being visited.
\<close>

fun traverse :: "nat \<Rightarrow> object3d list \<Rightarrow> nat list \<Rightarrow> nat list \<times> object3d list" where
  "traverse i [] wheels = (wheels, [])"
| "traverse i (child # rest) wheels =
     (if startsWith (name child) ''wheel_''
      then (let (ws, rest') = traverse (Suc i) rest (wheels @ [i])
            in (ws, captureInitialRotation child # rest'))
      else (let (ws, rest') = traverse (Suc i) rest wheels
            in (ws, child # rest')))"

definition loadCallback :: "object3d list \<Rightarrow> viewer \<Rightarrow> viewer" where
  "loadCallback model st =
     (let (ws, model') = traverse 0 model []
      in st\<lparr>wheelsRef := ws, scene := model'\<rparr>)"

subsection \<open>The key handlers (lines 301 to 311)\<close>

definition lowerChar :: "char \<Rightarrow> char" where
  "lowerChar c =
     (let n = (of_char c :: nat)
      in if 65 \<le> n \<and> n \<le> 90 then char_of (n + 32) else c)"

definition toLowerCase :: "string \<Rightarrow> string" where
  "toLowerCase s = map lowerChar s"

definition handleKeyDown :: "string \<Rightarrow> viewer \<Rightarrow> viewer" where
  "handleKeyDown e_key st =
     (let key = toLowerCase e_key
      in if key = ''arrowleft'' \<or> key = ''a'' \<or> key = ''arrowright'' \<or> key = ''d''
         then st\<lparr>keysPressed := insert key (keysPressed st)\<rparr>
         else st)"

definition handleKeyUp :: "string \<Rightarrow> viewer \<Rightarrow> viewer" where
  "handleKeyUp e_key st =
     (let key = toLowerCase e_key
      in st\<lparr>keysPressed := keysPressed st - {key}\<rparr>)"

subsection \<open>The frame callback \<^verbatim>\<open>animate\<close> (lines 215 to 287)\<close>

definition maxSteeringAngle :: real where
  "maxSteeringAngle = pi / 4"

definition steeringSpeed :: real where
  "steeringSpeed = 0.05"

text \<open>Lines 222 to 233: the new value of \<^verbatim>\<open>steeringAngleRef.current\<close>.\<close>

definition steerLeftHeld :: "string set \<Rightarrow> bool" where
  \<comment> \<open>the condition of line 222\<close>
  "steerLeftHeld keys = (''ArrowLeft'' \<in> keys \<or> ''a'' \<in> keys)"

definition steerRightHeld :: "string set \<Rightarrow> bool" where
  \<comment> \<open>the condition of line 224\<close>
  "steerRightHeld keys = (''ArrowRight'' \<in> keys \<or> ''d'' \<in> keys)"

definition steeringUpdate :: "string set \<Rightarrow> real \<Rightarrow> real" where
  "steeringUpdate keys angle =
     (if steerLeftHeld keys
        then min (angle + steeringSpeed) maxSteeringAngle
      else if steerRightHeld keys
        then max (angle - steeringSpeed) (- maxSteeringAngle)
      else if \<bar>angle\<bar> > 0.01 then angle * 0.9
      else 0)"

definition axisVec :: "axis \<Rightarrow> vector3" where
  "axisVec a = \<lparr>vx = (if a = AxisX then 1 else 0),
                vy = (if a = AxisY then 1 else 0),
                vz = (if a = AxisZ then 1 else 0)\<rparr>"

definition isFrontWheel :: "string \<Rightarrow> bool" where
  "isFrontWheel n = (n = ''wheel_front_left'' \<or> n = ''wheel_front_right'')"

definition isRightWheel :: "string \<Rightarrow> bool" where
  "isRightWheel n = (n = ''wheel_front_right'' \<or> n = ''wheel_rear_right'')"

text \<open>Lines 250 to 255: the angle handed to the steering rotation of a front wheel.\<close>

definition finalSteeringAngle :: "config \<Rightarrow> real \<Rightarrow> string \<Rightarrow> real" where
  "finalSteeringAngle cfg steeringAngle n =
     (let a = steeringAngle + manualSteeringAngle cfg
      in if isRightWheel n then - a else a)"

text \<open>Lines 245 to 268: the quaternion \<open>q\<close> before the rolling rotation is applied.\<close>

definition steeredQ :: "config \<Rightarrow> real \<Rightarrow> string \<Rightarrow> euler \<Rightarrow> quat" where
  "steeredQ cfg steeringAngle n initial =
     (let q = setFromEuler initial
      in if isFrontWheel n
         then (let steeringQ = setFromAxisAngle (axisVec (steeringAxis cfg))
                                 (finalSteeringAngle cfg steeringAngle n)
               in multiply q steeringQ)
         else q)"

text \<open>Lines 245 to 279: the quaternion \<open>q\<close> that is copied into the wheel.\<close>

definition wheelQ :: "config \<Rightarrow> real \<Rightarrow> real \<Rightarrow> string \<Rightarrow> euler \<Rightarrow> quat" where
  "wheelQ cfg steeringAngle wheelRotation n initial =
     (let q = steeredQ cfg steeringAngle n initial;
          rotationQ = setFromAxisAngle (axisVec (rotationAxis cfg)) wheelRotation
      in multiply q rotationQ)"

text \<open>
  \<^verbatim>\<open>wheelsRef.current.forEach\<close>: each referenced node gets its quaternion overwritten. A
  wheel without \<^verbatim>\<open>userData.initialRotation\<close> makes \<^verbatim>\<open>setFromEuler\<close> read a field of
  \<^verbatim>\<open>undefined\<close>, which throws; the loop stops there and the nodes written so far keep
  their new orientation. A position outside the scene stands for no object at all and is
  put in the same branch.
\<close>

datatype outcome = Completed | TypeError

fun forEachWheel ::
  "config \<Rightarrow> real \<Rightarrow> real \<Rightarrow> nat list \<Rightarrow> object3d list \<Rightarrow> outcome \<times> object3d list" where
  "forEachWheel cfg sa wr [] sc = (Completed, sc)"
| "forEachWheel cfg sa wr (i # is) sc =
     (if i < length sc
      then (case initialRotation (sc ! i) of
              None \<Rightarrow> (TypeError, sc)
            | Some initial \<Rightarrow>
                forEachWheel cfg sa wr is
                  (sc[i := (sc ! i)\<lparr>quaternion := wheelQ cfg sa wr (name (sc ! i)) initial\<rparr>]))
      else (TypeError, sc))"

definition animate :: "config \<Rightarrow> viewer \<Rightarrow> outcome \<times> viewer" where
  "animate cfg st =
     (let sa = steeringUpdate (keysPressed st) (steeringAngleRef st);
          wr = wheelRotationRef st + manualRotationSpeed cfg;
          (res, sc) = forEachWheel cfg sa wr (wheelsRef st) (scene st)
      in (res, st\<lparr>steeringAngleRef := sa, wheelRotationRef := wr, scene := sc\<rparr>))"

text \<open>
  A run of frames, each seeing the set of keys held at that moment: the handlers have
  changed \<^verbatim>\<open>keysPressed\<close> between two frames, and the next frame runs whatever the
  previous one did, since \<^verbatim>\<open>requestAnimationFrame\<close> is called first.
\<close>

definition frame :: "config \<Rightarrow> viewer \<Rightarrow> string set \<Rightarrow> viewer" where
  "frame cfg st keys = snd (animate cfg (st\<lparr>keysPressed := keys\<rparr>))"

definition frames :: "config \<Rightarrow> string set list \<Rightarrow> viewer \<Rightarrow> viewer" where
  "frames cfg ks st = foldl (frame cfg) st ks"

subsection \<open>Notions used in the statements\<close>

text \<open>
  The rest orientation of a node: the Euler rotation that \<^verbatim>\<open>userData.initialRotation\<close>
  holds once the load callback has visited it.
\<close>

definition restRotation :: "object3d \<Rightarrow> euler" where
  "restRotation child =
     (case initialRotation child of None \<Rightarrow> rotation child | Some e \<Rightarrow> e)"

text \<open>A node with its orientation blanked, to compare everything but the orientation.\<close>

definition forgetQ :: "object3d \<Rightarrow> object3d" where
  "forgetQ w = w\<lparr>quaternion := identityQ\<rparr>"

text \<open>
  A small model for evaluating the statements: a body, a front wheel, a rear wheel and a
  node called \<open>wheel_spare\<close>, all authored without rotation.
\<close>

definition exampleModel :: "object3d list" where
  "exampleModel =
     [\<lparr>name = ''body'', rotation = \<lparr>ex = 0, ey = 0, ez = 0, order = XYZ\<rparr>,
        quaternion = identityQ, initialRotation = None\<rparr>,
      \<lparr>name = ''wheel_front_right'', rotation = \<lparr>ex = 0, ey = 0, ez = 0, order = XYZ\<rparr>,
        quaternion = identityQ, initialRotation = None\<rparr>,
      \<lparr>name = ''wheel_rear_left'', rotation = \<lparr>ex = 0, ey = 0, ez = 0, order = XYZ\<rparr>,
        quaternion = identityQ, initialRotation = None\<rparr>,
      \<lparr>name = ''wheel_spare'', rotation = \<lparr>ex = 0, ey = 0, ez = 0, order = XYZ\<rparr>,
        quaternion = identityQ, initialRotation = None\<rparr>]"

section \<open>The steering controller\<close>

subsection \<open>Auxiliary facts\<close>

lemma toLowerCase_ArrowLeft: "toLowerCase ''ArrowLeft'' = ''arrowleft''"
  by code_simp

lemma toLowerCase_a: "toLowerCase ''a'' = ''a''"
  by code_simp

lemma toLowerCase_ArrowRight: "toLowerCase ''ArrowRight'' = ''arrowright''"
  by code_simp

lemma toLowerCase_d: "toLowerCase ''d'' = ''d''"
  by code_simp

lemma steeringUpdate_bound:
  assumes "\<bar>a\<bar> \<le> pi / 4"
  shows "\<bar>steeringUpdate k a\<bar> \<le> pi / 4"
  using assms pi_ge_two
  by (auto simp: steeringUpdate_def steeringSpeed_def maxSteeringAngle_def min_def max_def abs_if)

lemma steeringAngleRef_animate:
  "steeringAngleRef (snd (animate cfg st)) = steeringUpdate (keysPressed st) (steeringAngleRef st)"
  by (simp add: animate_def Let_def split: prod.splits)

lemma wheelRotationRef_animate:
  "wheelRotationRef (snd (animate cfg st)) = wheelRotationRef st + manualRotationSpeed cfg"
  by (simp add: animate_def Let_def split: prod.splits)

lemma steeringAngleRef_frame:
  "steeringAngleRef (frame cfg st k) = steeringUpdate k (steeringAngleRef st)"
  by (simp add: frame_def steeringAngleRef_animate)

lemma wheelRotationRef_frame:
  "wheelRotationRef (frame cfg st k) = wheelRotationRef st + manualRotationSpeed cfg"
  by (simp add: frame_def wheelRotationRef_animate)

lemma frames_Nil: "frames cfg [] st = st"
  by (simp add: frames_def)

lemma frames_snoc: "frames cfg (ks @ [k]) st = frame cfg (frames cfg ks st) k"
  by (simp add: frames_def)

lemma frames_bound:
  "\<bar>steeringAngleRef st\<bar> \<le> pi / 4 \<Longrightarrow> \<bar>steeringAngleRef (frames cfg ks st)\<bar> \<le> pi / 4"
proof (induction ks rule: rev_induct)
  case Nil
  then show ?case by (simp add: frames_Nil)
next
  case (snoc k ks)
  then show ?case
    by (simp only: frames_snoc steeringAngleRef_frame steeringUpdate_bound)
qed

subsection \<open>Clamping\<close>

text \<open>
  Claim C2. Start from any state of the viewer whose steering angle is 0 and run any
  number of frames, each with an arbitrary set of held keys: the steering angle after the
  last frame is at most \<open>pi / 4\<close> in absolute value. Every prefix of a run is a run, so the
  bound holds after every frame.
\<close>

theorem steering_angle_clamped:
  "\<bar>steeringAngleRef (frames cfg ks (st\<lparr>steeringAngleRef := 0\<rparr>))\<bar> \<le> pi / 4"
  by (rule frames_bound) simp

subsection \<open>The frame without net input\<close>

text \<open>
  Claim C3, as stated, at the held-key set \<open>{a, d}\<close> and the previous angle 0: both
  directions are held, and the update returns 0.05, the result of the steer-left branch,
  not the value 0 of the decay branch.
\<close>

theorem both_directions_held_counterexample:
  "steerLeftHeld {''a'', ''d''} \<and> steerRightHeld {''a'', ''d''} \<and>
   steeringUpdate {''a'', ''d''} 0 = 0.05 \<and>
   steeringUpdate {''a'', ''d''} 0 \<noteq> (if \<bar>0::real\<bar> > 0.01 then 0 * 0.9 else 0)"
  using pi_ge_two
  by (simp add: steeringUpdate_def steerLeftHeld_def steerRightHeld_def steeringSpeed_def
      maxSteeringAngle_def)

text \<open>
  Claim C3, amended. When neither steering key is held, the update returns the previous
  angle times 0.9 if its absolute value exceeds 0.01, and exactly 0 otherwise. When both
  directions are held at once, the update takes the steer-left branch: it returns the
  minimum of the previous angle plus 0.05 and \<open>pi / 4\<close>.
\<close>

theorem steering_without_input:
  "(\<not> steerLeftHeld keys \<and> \<not> steerRightHeld keys \<longrightarrow>
      steeringUpdate keys a = (if \<bar>a\<bar> > 0.01 then a * 0.9 else 0)) \<and>
   (steerLeftHeld keys \<and> steerRightHeld keys \<longrightarrow>
      steeringUpdate keys a = min (a + 0.05) (pi / 4))"
  by (simp add: steeringUpdate_def steeringSpeed_def maxSteeringAngle_def)

theorem steering_without_input_witness:
  "\<not> steerLeftHeld {} \<and> \<not> steerRightHeld {} \<and> steeringUpdate {} 0.5 = 0.45 \<and>
   steerLeftHeld {''a'', ''d''} \<and> steerRightHeld {''a'', ''d''} \<and>
   steeringUpdate {''a'', ''d''} 0 = 0.05"
  using steering_without_input [of "{}" "0.5"] steering_without_input [of "{''a'', ''d''}" 0]
    pi_ge_two
  by (simp add: steerLeftHeld_def steerRightHeld_def)

subsection \<open>The physical keys\<close>

text \<open>
  Claim C8, evaluated. The key-down handler stores the key in lower case, so a press of
  the ArrowLeft key leaves \<open>arrowleft\<close> in the set of held keys; the frame callback looks
  for \<open>ArrowLeft\<close> and \<open>a\<close>, finds neither, and a frame from angle 0 leaves the angle at 0.
  A press of the \<open>a\<close> key leaves \<open>a\<close> in the set, and the same frame moves the angle to 0.05.
  The same happens on the other side: ArrowRight leaves the angle at 0, \<open>d\<close> moves it to
  -0.05.
\<close>

theorem arrow_keys_do_not_steer:
  "keysPressed (handleKeyDown ''ArrowLeft'' initialViewer) = {''arrowleft''} \<and>
   steeringAngleRef (frame defaultConfig initialViewer
      (keysPressed (handleKeyDown ''ArrowLeft'' initialViewer))) = 0 \<and>
   keysPressed (handleKeyDown ''a'' initialViewer) = {''a''} \<and>
   steeringAngleRef (frame defaultConfig initialViewer
      (keysPressed (handleKeyDown ''a'' initialViewer))) = 0.05 \<and>
   keysPressed (handleKeyDown ''ArrowRight'' initialViewer) = {''arrowright''} \<and>
   steeringAngleRef (frame defaultConfig initialViewer
      (keysPressed (handleKeyDown ''ArrowRight'' initialViewer))) = 0 \<and>
   keysPressed (handleKeyDown ''d'' initialViewer) = {''d''} \<and>
   steeringAngleRef (frame defaultConfig initialViewer
      (keysPressed (handleKeyDown ''d'' initialViewer))) = - 0.05"
  using pi_ge_two
  by (simp add: handleKeyDown_def toLowerCase_ArrowLeft toLowerCase_a toLowerCase_ArrowRight
      toLowerCase_d initialViewer_def
      steeringAngleRef_frame steeringUpdate_def steerLeftHeld_def steerRightHeld_def
      steeringSpeed_def maxSteeringAngle_def)

subsection \<open>Return to centre\<close>

lemma steeringUpdate_idle:
  "\<not> steerLeftHeld k \<Longrightarrow> \<not> steerRightHeld k \<Longrightarrow>
   steeringUpdate k a = (if \<bar>a\<bar> > 0.01 then a * 0.9 else 0)"
  by (simp add: steeringUpdate_def)

lemma frames_append: "frames cfg (ks @ ks') st = frames cfg ks' (frames cfg ks st)"
  by (simp add: frames_def)

lemma frames_Cons: "frames cfg (k # ks) st = frames cfg ks (frame cfg st k)"
  by (simp add: frames_def)

lemma idle_frames_form:
  assumes "\<forall>k\<in>set ks. \<not> steerLeftHeld k \<and> \<not> steerRightHeld k"
  shows "steeringAngleRef (frames cfg ks st) = 0 \<or>
         steeringAngleRef (frames cfg ks st) = 0.9 ^ length ks * steeringAngleRef st"
  using assms
proof (induction ks rule: rev_induct)
  case Nil
  then show ?case by (simp add: frames_Nil)
next
  case (snoc k ks)
  then have idle: "\<not> steerLeftHeld k" "\<not> steerRightHeld k" by simp_all
  from snoc have "steeringAngleRef (frames cfg ks st) = 0 \<or>
         steeringAngleRef (frames cfg ks st) = 0.9 ^ length ks * steeringAngleRef st"
    by simp
  then show ?case
    by (auto simp: frames_snoc steeringAngleRef_frame steeringUpdate_idle [OF idle])
qed

lemma idle_frames_zero:
  assumes "\<forall>k\<in>set ks. \<not> steerLeftHeld k \<and> \<not> steerRightHeld k"
    and "steeringAngleRef st = 0"
  shows "steeringAngleRef (frames cfg ks st) = 0"
  using idle_frames_form [OF assms(1), of cfg st] assms(2) by auto

lemma decay_reaches_threshold: "\<exists>n. 0.9 ^ n * \<bar>a::real\<bar> \<le> 0.01"
proof (cases "a = 0")
  case True
  then show ?thesis by simp
next
  case False
  then have "0 < 0.01 / \<bar>a\<bar>" by simp
  from real_arch_pow_inv [OF this, of "0.9"] obtain n where "0.9 ^ n < 0.01 / \<bar>a\<bar>"
    by auto
  with False have "0.9 ^ n * \<bar>a\<bar> < 0.01"
    by (simp add: pos_less_divide_eq)
  then show ?thesis by (intro exI [of _ n]) simp
qed

lemma idle_frames_settle:
  assumes small: "0.9 ^ n * \<bar>steeringAngleRef st\<bar> \<le> 0.01"
    and len: "n < length ks"
    and idle: "\<forall>k\<in>set ks. \<not> steerLeftHeld k \<and> \<not> steerRightHeld k"
  shows "steeringAngleRef (frames cfg ks st) = 0"
proof -
  define ks1 where "ks1 = take n ks"
  define k where "k = ks ! n"
  define ks2 where "ks2 = drop (Suc n) ks"
  have split: "ks = ks1 @ k # ks2"
    using len by (simp add: ks1_def k_def ks2_def id_take_nth_drop)
  have len1: "length ks1 = n" using len by (simp add: ks1_def)
  have idle1: "\<forall>k\<in>set ks1. \<not> steerLeftHeld k \<and> \<not> steerRightHeld k"
    and idlek: "\<not> steerLeftHeld k" "\<not> steerRightHeld k"
    and idle2: "\<forall>k\<in>set ks2. \<not> steerLeftHeld k \<and> \<not> steerRightHeld k"
    using idle by (simp_all add: split)
  define st1 where "st1 = frames cfg ks1 st"
  have "steeringAngleRef st1 = 0 \<or> steeringAngleRef st1 = 0.9 ^ n * steeringAngleRef st"
    using idle_frames_form [OF idle1, of cfg st] by (simp add: st1_def len1)
  then have "\<bar>steeringAngleRef st1\<bar> \<le> 0.01"
    using small by (auto simp: abs_mult)
  then have "steeringAngleRef (frame cfg st1 k) = 0"
    by (simp add: steeringAngleRef_frame steeringUpdate_idle [OF idlek])
  then have "steeringAngleRef (frames cfg ks2 (frame cfg st1 k)) = 0"
    by (rule idle_frames_zero [OF idle2])
  then show ?thesis
    by (simp add: split frames_append frames_Cons st1_def)
qed

lemma idle_frames_closed_form:
  assumes "\<forall>k\<in>set ks. \<not> steerLeftHeld k \<and> \<not> steerRightHeld k"
  shows "steeringAngleRef (frames cfg ks st) =
           (if ks = [] \<or> 0.9 ^ (length ks - 1) * \<bar>steeringAngleRef st\<bar> > 0.01
            then 0.9 ^ length ks * steeringAngleRef st else 0)"
  using assms
proof (induction ks rule: rev_induct)
  case Nil
  then show ?case by (simp add: frames_Nil)
next
  case (snoc k ks)
  define a where "a = steeringAngleRef st"
  define m where "m = length ks"
  define b where "b = steeringAngleRef (frames cfg ks st)"
  from snoc.prems have idle: "\<not> steerLeftHeld k" "\<not> steerRightHeld k" by simp_all
  from snoc have b: "b = (if ks = [] \<or> 0.9 ^ (m - 1) * \<bar>a\<bar> > 0.01 then 0.9 ^ m * a else 0)"
    by (simp add: a_def m_def b_def)
  have step: "steeringAngleRef (frames cfg (ks @ [k]) st) = (if \<bar>b\<bar> > 0.01 then b * 0.9 else 0)"
    by (simp add: frames_snoc steeringAngleRef_frame steeringUpdate_idle [OF idle] b_def)
  have absm: "\<bar>0.9 ^ m * a\<bar> = 0.9 ^ m * \<bar>a\<bar>" by (simp add: abs_mult)
  have goal: "(if \<bar>b\<bar> > 0.01 then b * 0.9 else 0) =
              (if 0.9 ^ m * \<bar>a\<bar> > 0.01 then 0.9 ^ Suc m * a else 0)"
  proof (cases "0.9 ^ m * \<bar>a\<bar> > 0.01")
    case True
    have "ks = [] \<or> 0.9 ^ (m - 1) * \<bar>a\<bar> > 0.01"
    proof (cases m)
      case 0
      then show ?thesis by (simp add: m_def)
    next
      case (Suc m')
      have "0 \<le> 0.9 ^ m' * \<bar>a\<bar>" by simp
      moreover have "0.9 ^ m * \<bar>a\<bar> = 0.9 * (0.9 ^ m' * \<bar>a\<bar>)" by (simp add: Suc)
      ultimately have "0.9 ^ m * \<bar>a\<bar> \<le> 0.9 ^ m' * \<bar>a\<bar>" by linarith
      with True show ?thesis by (simp add: Suc)
    qed
    then have "b = 0.9 ^ m * a" by (simp add: b)
    with True absm show ?thesis by simp
  next
    case False
    have "\<bar>b\<bar> \<le> 0.01"
      using False absm by (simp add: b)
    with False show ?thesis by simp
  qed
  show ?case
    unfolding step goal by (simp add: a_def m_def)
qed

lemma steeringUpdate_left_held:
  assumes "steerLeftHeld k" and "0 \<le> a"
  shows "0.05 \<le> steeringUpdate k a"
  using assms pi_ge_two
  by (simp add: steeringUpdate_def steeringSpeed_def maxSteeringAngle_def min_def)

lemma left_held_frames:
  assumes "0 \<le> steeringAngleRef st"
  shows "0.05 \<le> steeringAngleRef (frames cfg (replicate (Suc n) {''a'', ''d''}) st)"
proof (induction n)
  case 0
  have "steerLeftHeld {''a'', ''d''}" by (simp add: steerLeftHeld_def)
  from steeringUpdate_left_held [OF this assms]
  show ?case by (simp add: frames_Cons frames_Nil steeringAngleRef_frame)
next
  case (Suc n)
  have held: "steerLeftHeld {''a'', ''d''}" by (simp add: steerLeftHeld_def)
  have "replicate (Suc (Suc n)) {''a'', ''d''} = replicate (Suc n) {''a'', ''d''} @ [{''a'', ''d''}]"
    by (simp add: replicate_append_same)
  moreover have "0 \<le> steeringAngleRef (frames cfg (replicate (Suc n) {''a'', ''d''}) st)"
    using Suc by simp
  ultimately show ?case
    using steeringUpdate_left_held [OF held]
    by (simp only: frames_snoc steeringAngleRef_frame)
qed

text \<open>
  Claim C6, as stated, at the held-key set \<open>{a, d}\<close> from the starting angle 0: both
  directions are held, so there is no net input in the sense of the claim, yet every
  frame takes the steer-left branch and the angle is at least 0.05 after each of them.
  No number of such frames brings the angle back to 0.
\<close>

theorem both_held_never_returns_counterexample:
  "steerLeftHeld {''a'', ''d''} \<and> steerRightHeld {''a'', ''d''} \<and>
   \<not> (\<exists>N. \<forall>n\<ge>N. steeringAngleRef
          (frames defaultConfig (replicate n {''a'', ''d''}) initialViewer) = 0)"
proof -
  have start: "0 \<le> steeringAngleRef initialViewer" by (simp add: initialViewer_def)
  have "\<exists>n\<ge>N. steeringAngleRef
          (frames defaultConfig (replicate n {''a'', ''d''}) initialViewer) \<noteq> 0" for N
  proof (intro exI [of _ "Suc N"] conjI)
    show "N \<le> Suc N" by simp
    from left_held_frames [OF start, of defaultConfig N]
    show "steeringAngleRef (frames defaultConfig (replicate (Suc N) {''a'', ''d''}) initialViewer) \<noteq> 0"
      by auto
  qed
  then show ?thesis
    by (simp add: steerLeftHeld_def steerRightHeld_def)
qed

text \<open>
  Claim C6, amended. From every starting angle, a run of frames in which neither steering
  key is held ends with the steering angle exactly 0 as soon as the run is long enough:
  there is a number \<open>N\<close> of frames from which on this holds. More precisely, if \<open>n\<close>
  multiplications by 0.9 bring the absolute value of the starting angle to at most 0.01,
  then every such run of more than \<open>n\<close> frames ends at exactly 0. Until then the angle
  decays and does nothing else: after a run of such frames the angle is the starting
  angle times 0.9 to the number of frames, as long as the angle before the last frame
  was above 0.01 in absolute value, and exactly 0 otherwise.
\<close>

theorem steering_returns_to_zero:
  "(\<exists>N. \<forall>ks. N \<le> length ks \<and> (\<forall>k\<in>set ks. \<not> steerLeftHeld k \<and> \<not> steerRightHeld k)
       \<longrightarrow> steeringAngleRef (frames cfg ks st) = 0) \<and>
   (\<forall>n ks. 0.9 ^ n * \<bar>steeringAngleRef st\<bar> \<le> 0.01 \<and> n < length ks \<and>
       (\<forall>k\<in>set ks. \<not> steerLeftHeld k \<and> \<not> steerRightHeld k)
       \<longrightarrow> steeringAngleRef (frames cfg ks st) = 0) \<and>
   (\<forall>ks. (\<forall>k\<in>set ks. \<not> steerLeftHeld k \<and> \<not> steerRightHeld k)
       \<longrightarrow> steeringAngleRef (frames cfg ks st) =
             (if ks = [] \<or> 0.9 ^ (length ks - 1) * \<bar>steeringAngleRef st\<bar> > 0.01
              then 0.9 ^ length ks * steeringAngleRef st else 0))"
proof (intro conjI)
  obtain n where n: "0.9 ^ n * \<bar>steeringAngleRef st\<bar> \<le> 0.01"
    using decay_reaches_threshold by blast
  show "\<exists>N. \<forall>ks. N \<le> length ks \<and> (\<forall>k\<in>set ks. \<not> steerLeftHeld k \<and> \<not> steerRightHeld k)
       \<longrightarrow> steeringAngleRef (frames cfg ks st) = 0"
  proof (intro exI [of _ "Suc n"] allI impI)
    fix ks
    assume "Suc n \<le> length ks \<and> (\<forall>k\<in>set ks. \<not> steerLeftHeld k \<and> \<not> steerRightHeld k)"
    then show "steeringAngleRef (frames cfg ks st) = 0"
      using idle_frames_settle [OF n, of ks cfg] by simp
  qed
next
  show "\<forall>n ks. 0.9 ^ n * \<bar>steeringAngleRef st\<bar> \<le> 0.01 \<and> n < length ks \<and>
       (\<forall>k\<in>set ks. \<not> steerLeftHeld k \<and> \<not> steerRightHeld k)
       \<longrightarrow> steeringAngleRef (frames cfg ks st) = 0"
    using idle_frames_settle by blast
next
  show "\<forall>ks. (\<forall>k\<in>set ks. \<not> steerLeftHeld k \<and> \<not> steerRightHeld k)
       \<longrightarrow> steeringAngleRef (frames cfg ks st) =
             (if ks = [] \<or> 0.9 ^ (length ks - 1) * \<bar>steeringAngleRef st\<bar> > 0.01
              then 0.9 ^ length ks * steeringAngleRef st else 0)"
    using idle_frames_closed_form by blast
qed

theorem steering_returns_to_zero_witness:
  "steeringAngleRef (initialViewer\<lparr>steeringAngleRef := 0.5\<rparr>) = 0.5 \<and>
   \<not> steerLeftHeld {} \<and> \<not> steerRightHeld {} \<and>
   steeringAngleRef (frames defaultConfig (replicate 5 {})
      (initialViewer\<lparr>steeringAngleRef := 0.5\<rparr>)) = 0.295245 \<and>
   steeringAngleRef (frames defaultConfig (replicate 38 {})
      (initialViewer\<lparr>steeringAngleRef := 0.5\<rparr>)) = 0.9 ^ 38 * 0.5 \<and>
   steeringAngleRef (frames defaultConfig (replicate 39 {})
      (initialViewer\<lparr>steeringAngleRef := 0.5\<rparr>)) = 0"
proof -
  define st where "st = initialViewer\<lparr>steeringAngleRef := 0.5\<rparr>"
  have a: "steeringAngleRef st = 0.5" by (simp add: st_def)
  have small: "0.9 ^ 38 * \<bar>steeringAngleRef st\<bar> \<le> 0.01"
    by (simp add: a power_divide)
  have idle: "\<forall>k\<in>set (replicate n {}). \<not> steerLeftHeld k \<and> \<not> steerRightHeld k" for n
    by (simp add: steerLeftHeld_def steerRightHeld_def)
  have len: "38 < length (replicate 39 ({}::string set))" by simp
  note main = steering_returns_to_zero [of defaultConfig st]
  have z: "steeringAngleRef (frames defaultConfig (replicate 39 {}) st) = 0"
    using main small idle [of 39] len by blast
  have f5: "steeringAngleRef (frames defaultConfig (replicate 5 {}) st) =
            (if replicate 5 ({}::string set) = [] \<or>
                0.9 ^ (length (replicate 5 ({}::string set)) - 1) * \<bar>steeringAngleRef st\<bar> > 0.01
             then 0.9 ^ length (replicate 5 ({}::string set)) * steeringAngleRef st else 0)"
    using main idle [of 5] by blast
  have f38: "steeringAngleRef (frames defaultConfig (replicate 38 {}) st) =
            (if replicate 38 ({}::string set) = [] \<or>
                0.9 ^ (length (replicate 38 ({}::string set)) - 1) * \<bar>steeringAngleRef st\<bar> > 0.01
             then 0.9 ^ length (replicate 38 ({}::string set)) * steeringAngleRef st else 0)"
    using main idle [of 38] by blast
  have v5: "steeringAngleRef (frames defaultConfig (replicate 5 {}) st) = 0.295245"
    unfolding f5 by (simp add: a power_divide)
  have v38: "steeringAngleRef (frames defaultConfig (replicate 38 {}) st) = 0.9 ^ 38 * 0.5"
    unfolding f38 by (simp add: a power_divide)
  from z v5 v38 a show ?thesis
    unfolding st_def by (simp add: steerLeftHeld_def steerRightHeld_def)
qed

section \<open>The roll accumulator\<close>

lemma wheelRotationRef_frames:
  "wheelRotationRef (frames cfg ks st) =
     wheelRotationRef st + real (length ks) * manualRotationSpeed cfg"
  by (induction ks rule: rev_induct)
     (simp_all add: frames_Nil frames_snoc wheelRotationRef_frame algebra_simps)

text \<open>
  Claim C7, as stated, at the roll speed 0, the minimum of the slider: a frame leaves the
  accumulator where it was, so it is not strictly increasing.
\<close>

theorem zero_roll_speed_counterexample:
  "manualRotationSpeed (defaultConfig\<lparr>manualRotationSpeed := 0\<rparr>) = 0 \<and>
   \<not> wheelRotationRef initialViewer
       < wheelRotationRef (snd (animate (defaultConfig\<lparr>manualRotationSpeed := 0\<rparr>) initialViewer))"
  by (simp add: wheelRotationRef_animate)

text \<open>
  Claim C7, amended. Every frame adds exactly the configured roll speed to the roll
  accumulator, so after any run of frames the accumulator is its starting value plus the
  number of frames times the speed: nothing clamps, wraps or resets it. It increases
  strictly in each frame when the speed is positive, and it stays unchanged when the speed
  is 0.
\<close>

theorem roll_accumulates:
  "wheelRotationRef (snd (animate cfg st)) = wheelRotationRef st + manualRotationSpeed cfg \<and>
   wheelRotationRef (frames cfg ks st)
     = wheelRotationRef st + real (length ks) * manualRotationSpeed cfg \<and>
   (0 < manualRotationSpeed cfg \<longrightarrow>
      wheelRotationRef st < wheelRotationRef (snd (animate cfg st))) \<and>
   (manualRotationSpeed cfg = 0 \<longrightarrow>
      wheelRotationRef (snd (animate cfg st)) = wheelRotationRef st)"
  by (simp add: wheelRotationRef_animate wheelRotationRef_frames)

theorem roll_accumulates_witness:
  "0 < manualRotationSpeed defaultConfig \<and>
   wheelRotationRef (snd (animate defaultConfig initialViewer)) = 0.05 \<and>
   wheelRotationRef initialViewer < wheelRotationRef (snd (animate defaultConfig initialViewer)) \<and>
   wheelRotationRef (frames defaultConfig (replicate 20 {}) initialViewer) = 1 \<and>
   manualRotationSpeed (defaultConfig\<lparr>manualRotationSpeed := 0\<rparr>) = 0 \<and>
   wheelRotationRef (snd (animate (defaultConfig\<lparr>manualRotationSpeed := 0\<rparr>) initialViewer)) = 0"
  using roll_accumulates [of defaultConfig initialViewer "replicate 20 {}"]
    roll_accumulates [of "defaultConfig\<lparr>manualRotationSpeed := 0\<rparr>" initialViewer "[]"]
  by (simp add: defaultConfig_def initialViewer_def)

section \<open>The wheels\<close>

subsection \<open>Auxiliary facts about the load callback and the wheel loop\<close>

lemma traverse_snd:
  "snd (traverse i ns ws) =
     map (\<lambda>c. if startsWith (name c) ''wheel_'' then captureInitialRotation c else c) ns"
  by (induction ns arbitrary: i ws) (simp_all add: split_beta Let_def)

lemma traverse_fst:
  "set (fst (traverse i ns ws)) =
     set ws \<union> {i + j | j. j < length ns \<and> startsWith (name (ns ! j)) ''wheel_''}"
proof (induction ns arbitrary: i ws)
  case Nil
  then show ?case by simp
next
  case (Cons c ns)
  have shift: "{i + j | j. j < Suc (length ns) \<and> P ((c # ns) ! j)} =
        (if P c then {i} else {}) \<union> {Suc i + j | j. j < length ns \<and> P (ns ! j)}" for P
  proof (rule set_eqI)
    fix x
    show "x \<in> {i + j | j. j < Suc (length ns) \<and> P ((c # ns) ! j)} \<longleftrightarrow>
          x \<in> (if P c then {i} else {}) \<union> {Suc i + j | j. j < length ns \<and> P (ns ! j)}"
    proof
      assume "x \<in> {i + j | j. j < Suc (length ns) \<and> P ((c # ns) ! j)}"
      then obtain j where j: "x = i + j" "j < Suc (length ns)" "P ((c # ns) ! j)" by blast
      show "x \<in> (if P c then {i} else {}) \<union> {Suc i + j | j. j < length ns \<and> P (ns ! j)}"
      proof (cases j)
        case 0
        with j show ?thesis by simp
      next
        case (Suc j')
        with j have "x = Suc i + j'" "j' < length ns" "P (ns ! j')" by simp_all
        then show ?thesis by blast
      qed
    next
      assume "x \<in> (if P c then {i} else {}) \<union> {Suc i + j | j. j < length ns \<and> P (ns ! j)}"
      then consider "P c" "x = i" | j where "x = Suc i + j" "j < length ns" "P (ns ! j)"
        by (auto split: if_splits)
      then show "x \<in> {i + j | j. j < Suc (length ns) \<and> P ((c # ns) ! j)}"
      proof cases
        case 1
        then have "x = i + 0 \<and> 0 < Suc (length ns) \<and> P ((c # ns) ! 0)" by simp
        then show ?thesis by blast
      next
        case 2
        then have "x = i + Suc j \<and> Suc j < Suc (length ns) \<and> P ((c # ns) ! Suc j)" by simp
        then show ?thesis by blast
      qed
    qed
  qed
  show ?case
    by (simp add: split_beta Let_def Cons.IH shift [of "\<lambda>c. startsWith (name c) ''wheel_''"])
qed

lemma wheelsRef_loadCallback:
  "set (wheelsRef (loadCallback model st0)) =
     {i. i < length model \<and> startsWith (name (model ! i)) ''wheel_''}"
  by (simp add: loadCallback_def split_beta traverse_fst)

lemma scene_loadCallback:
  "scene (loadCallback model st0) =
     map (\<lambda>c. if startsWith (name c) ''wheel_'' then captureInitialRotation c else c) model"
  by (simp add: loadCallback_def split_beta traverse_snd)

lemma accumulators_loadCallback:
  "steeringAngleRef (loadCallback model st0) = steeringAngleRef st0"
  "wheelRotationRef (loadCallback model st0) = wheelRotationRef st0"
  by (simp_all add: loadCallback_def split_beta)

lemma captureInitialRotation_fields:
  "name (captureInitialRotation c) = name c"
  "quaternion (captureInitialRotation c) = quaternion c"
  "initialRotation (captureInitialRotation c) = Some (restRotation c)"
  by (simp_all add: captureInitialRotation_def restRotation_def split: option.splits)

lemma loaded_wheel:
  assumes "i \<in> set (wheelsRef (loadCallback model st0))"
  shows "i < length (scene (loadCallback model st0))"
    and "name (scene (loadCallback model st0) ! i) = name (model ! i)"
    and "initialRotation (scene (loadCallback model st0) ! i) = Some (restRotation (model ! i))"
  using assms
  by (simp_all add: wheelsRef_loadCallback scene_loadCallback captureInitialRotation_fields)


lemma forEachWheel_forget:
  "map forgetQ (snd (forEachWheel cfg sa wr is sc)) = map forgetQ sc"
proof (induction "is" arbitrary: sc)
  case Nil
  then show ?case by simp
next
  case (Cons i "is")
  show ?case
  proof (cases "i < length sc")
    case False
    then show ?thesis by simp
  next
    case True
    show ?thesis
    proof (cases "initialRotation (sc ! i)")
      case None
      with True show ?thesis by simp
    next
      case (Some e)
      have "map forgetQ (sc[i := (sc ! i)\<lparr>quaternion := q\<rparr>]) = map forgetQ sc" for q
        using True by (simp add: map_update forgetQ_def list_update_same_conv)
      with True Some show ?thesis by (simp add: Cons.IH)
    qed
  qed
qed

lemma forEachWheel_other:
  "j \<notin> set is \<Longrightarrow> snd (forEachWheel cfg sa wr is sc) ! j = sc ! j"
proof (induction "is" arbitrary: sc)
  case Nil
  then show ?case by simp
next
  case (Cons i "is")
  then have "j \<noteq> i" "j \<notin> set is" by simp_all
  then show ?case
    by (simp add: Cons.IH split: option.splits)
qed

lemma forEachWheel_wheel:
  assumes "\<forall>i\<in>set is. i < length sc \<and> initialRotation (sc ! i) \<noteq> None"
    and "j \<in> set is"
  shows "quaternion (snd (forEachWheel cfg sa wr is sc) ! j) =
           wheelQ cfg sa wr (name (sc ! j)) (the (initialRotation (sc ! j)))"
  using assms
proof (induction "is" arbitrary: sc)
  case Nil
  then show ?case by simp
next
  case (Cons i "is")
  from Cons.prems have i: "i < length sc" and "initialRotation (sc ! i) \<noteq> None" by simp_all
  then obtain e where e: "initialRotation (sc ! i) = Some e" by blast
  define sc' where "sc' = sc[i := (sc ! i)\<lparr>quaternion := wheelQ cfg sa wr (name (sc ! i)) e\<rparr>]"
  have step: "forEachWheel cfg sa wr (i # is) sc = forEachWheel cfg sa wr is sc'"
    using i e by (simp add: sc'_def)
  have same: "name (sc' ! k) = name (sc ! k)" "initialRotation (sc' ! k) = initialRotation (sc ! k)"
    if "k < length sc" for k
    using that by (cases "k = i"; simp add: sc'_def)+
  have len: "length sc' = length sc" by (simp add: sc'_def)
  have ok': "\<forall>i\<in>set is. i < length sc' \<and> initialRotation (sc' ! i) \<noteq> None"
    using Cons.prems(1) by (simp add: len same)
  have j: "j < length sc" using Cons.prems by auto
  show ?case
  proof (cases "j \<in> set is")
    case True
    from Cons.IH [OF ok' True] show ?thesis
      by (simp add: step same [OF j] del: forEachWheel.simps)
  next
    case False
    with Cons.prems(2) have "j = i" by simp
    with False i e show ?thesis
      by (simp add: step forEachWheel_other sc'_def del: forEachWheel.simps)
  qed
qed

lemma forEachWheel_Completed:
  assumes "\<forall>i\<in>set is. i < length sc \<and> initialRotation (sc ! i) \<noteq> None"
  shows "fst (forEachWheel cfg sa wr is sc) = Completed"
  using assms
proof (induction "is" arbitrary: sc)
  case Nil
  then show ?case by simp
next
  case (Cons i "is")
  from Cons.prems have i: "i < length sc" and "initialRotation (sc ! i) \<noteq> None" by simp_all
  then obtain e where e: "initialRotation (sc ! i) = Some e" by blast
  have "\<forall>k\<in>set is. k < length (sc[i := w]) \<and>
          initialRotation ((sc[i := (sc ! i)\<lparr>quaternion := q\<rparr>]) ! k) \<noteq> None" for w q
    using Cons.prems by (auto simp: nth_list_update)
  then show ?case using i e by (simp add: Cons.IH)
qed

lemma scene_animate:
  "scene (snd (animate cfg st)) =
     snd (forEachWheel cfg (steeringUpdate (keysPressed st) (steeringAngleRef st))
            (wheelRotationRef st + manualRotationSpeed cfg) (wheelsRef st) (scene st))"
  by (simp add: animate_def Let_def split_beta)

lemma wheelsRef_animate: "wheelsRef (snd (animate cfg st)) = wheelsRef st"
  by (simp add: animate_def Let_def split_beta)

lemma wheelsRef_frame: "wheelsRef (frame cfg st k) = wheelsRef st"
  by (simp add: frame_def wheelsRef_animate)

lemma scene_frame:
  "scene (frame cfg st k) =
     snd (forEachWheel cfg (steeringAngleRef (frame cfg st k)) (wheelRotationRef (frame cfg st k))
            (wheelsRef st) (scene st))"
  by (simp add: steeringAngleRef_frame wheelRotationRef_frame)
     (simp add: frame_def scene_animate)

lemma frame_forget: "map forgetQ (scene (frame cfg st k)) = map forgetQ (scene st)"
  by (simp only: scene_frame forEachWheel_forget)

lemma wheelsRef_frames: "wheelsRef (frames cfg ks st) = wheelsRef st"
  by (induction ks rule: rev_induct) (simp_all add: frames_Nil frames_snoc wheelsRef_frame)

lemma frames_forget: "map forgetQ (scene (frames cfg ks st)) = map forgetQ (scene st)"
  by (induction ks rule: rev_induct) (simp_all add: frames_Nil frames_snoc frame_forget)

lemma forget_fields:
  assumes "map forgetQ sc' = map forgetQ sc"
  shows "length sc' = length sc"
    and "j < length sc \<Longrightarrow> name (sc' ! j) = name (sc ! j)"
    and "j < length sc \<Longrightarrow> initialRotation (sc' ! j) = initialRotation (sc ! j)"
proof -
  show len: "length sc' = length sc" using assms by (rule map_eq_imp_length_eq)
  assume j: "j < length sc"
  have eq: "forgetQ (sc' ! j) = forgetQ (sc ! j)"
    using assms j len by (metis nth_map)
  have "name (forgetQ (sc' ! j)) = name (forgetQ (sc ! j))" by (simp only: eq)
  then show "name (sc' ! j) = name (sc ! j)" by (simp add: forgetQ_def)
  have "initialRotation (forgetQ (sc' ! j)) = initialRotation (forgetQ (sc ! j))"
    by (simp only: eq)
  then show "initialRotation (sc' ! j) = initialRotation (sc ! j)" by (simp add: forgetQ_def)
qed

lemma frames_untouched:
  "j \<notin> set (wheelsRef st) \<Longrightarrow> scene (frames cfg ks st) ! j = scene st ! j"
  by (induction ks rule: rev_induct)
     (simp_all add: frames_Nil frames_snoc scene_frame wheelsRef_frames forEachWheel_other)

text \<open>
  After the load callback every selected node has its initial rotation, so no frame
  throws, however many frames ran before it.
\<close>

lemma animate_Completed_after_load:
  "fst (animate cfg ((frames cfg ks (loadCallback model st0))\<lparr>keysPressed := k\<rparr>)) = Completed"
proof -
  define L where "L = loadCallback model st0"
  define st where "st = frames cfg ks L"
  have forget: "map forgetQ (scene st) = map forgetQ (scene L)"
    by (simp add: st_def frames_forget)
  have wheels: "wheelsRef st = wheelsRef L" by (simp add: st_def wheelsRef_frames)
  have ok: "\<forall>j\<in>set (wheelsRef st). j < length (scene st) \<and> initialRotation (scene st ! j) \<noteq> None"
  proof
    fix j assume "j \<in> set (wheelsRef st)"
    then have j: "j \<in> set (wheelsRef (loadCallback model st0))" by (simp add: wheels L_def)
    from loaded_wheel [OF j] forget_fields(1) [OF forget] forget_fields(3) [OF forget, of j]
    show "j < length (scene st) \<and> initialRotation (scene st ! j) \<noteq> None"
      by (simp add: L_def)
  qed
  show ?thesis
    unfolding L_def [symmetric] st_def [symmetric]
    by (simp add: animate_def Let_def split_beta forEachWheel_Completed [OF ok])
qed

text \<open>
  The orientation of a selected node after a run of at least one frame, in terms of the
  two accumulators at that moment and of what the load callback stored.
\<close>

lemma wheel_after_frames:
  assumes i: "i \<in> set (wheelsRef (loadCallback model st0))"
    and ks: "ks \<noteq> []"
  shows "quaternion (scene (frames cfg ks (loadCallback model st0)) ! i) =
           wheelQ cfg (steeringAngleRef (frames cfg ks (loadCallback model st0)))
             (wheelRotationRef (frames cfg ks (loadCallback model st0)))
             (name (model ! i)) (restRotation (model ! i))"
proof -
  define L where "L = loadCallback model st0"
  from ks obtain ks' k where split: "ks = ks' @ [k]" by (metis rev_exhaust)
  define st where "st = frames cfg ks' L"
  have forget: "map forgetQ (scene st) = map forgetQ (scene L)"
    by (simp add: st_def frames_forget)
  have wheels: "wheelsRef st = wheelsRef L" by (simp add: st_def wheelsRef_frames)
  have ok: "\<forall>j\<in>set (wheelsRef st). j < length (scene st) \<and> initialRotation (scene st ! j) \<noteq> None"
  proof
    fix j assume "j \<in> set (wheelsRef st)"
    then have j: "j \<in> set (wheelsRef (loadCallback model st0))" by (simp add: wheels L_def)
    from loaded_wheel [OF j] forget_fields(1) [OF forget] forget_fields(3) [OF forget, of j]
    show "j < length (scene st) \<and> initialRotation (scene st ! j) \<noteq> None"
      by (simp add: L_def)
  qed
  have i': "i \<in> set (wheelsRef st)" using i by (simp add: wheels L_def)
  have fields: "name (scene st ! i) = name (model ! i)"
    "initialRotation (scene st ! i) = Some (restRotation (model ! i))"
    using loaded_wheel [OF i] forget_fields(2,3) [OF forget, of i] by (simp_all add: L_def)
  have "frames cfg ks L = frame cfg st k" by (simp add: split frames_snoc st_def)
  then show ?thesis
    unfolding L_def [symmetric]
    by (simp add: scene_frame forEachWheel_wheel [OF ok i'] fields)
qed

subsection \<open>Auxiliary facts about quaternions and the example model\<close>

lemma setFromEuler_zero: "setFromEuler \<lparr>ex = 0, ey = 0, ez = 0, order = ord\<rparr> = identityQ"
  by (cases ord) (simp_all add: setFromEuler_def identityQ_def)

lemma multiply_identityQ: "multiply identityQ q = q"
  by (simp add: multiply_def identityQ_def)

lemma example_wheels: "wheelsRef (loadCallback exampleModel initialViewer) = [1, 2, 3]"
  by (simp add: exampleModel_def loadCallback_def startsWith_def)

lemma example_names:
  "name (exampleModel ! 0) = ''body''"
  "name (exampleModel ! 1) = ''wheel_front_right''"
  "name (exampleModel ! Suc 0) = ''wheel_front_right''"
  "name (exampleModel ! 2) = ''wheel_rear_left''"
  "name (exampleModel ! 3) = ''wheel_spare''"
  by (simp_all add: exampleModel_def)

lemma example_rest:
  "setFromEuler (restRotation (exampleModel ! 1)) = identityQ"
  "setFromEuler (restRotation (exampleModel ! Suc 0)) = identityQ"
  "setFromEuler (restRotation (exampleModel ! 2)) = identityQ"
  "setFromEuler (restRotation (exampleModel ! 3)) = identityQ"
  by (simp_all add: exampleModel_def restRotation_def setFromEuler_zero)

lemma example_quaternion:
  "quaternion (exampleModel ! 3) = identityQ"
  by (simp add: exampleModel_def)

lemma defaultConfig_fields:
  "steeringAxis defaultConfig = AxisY" "rotationAxis defaultConfig = AxisX"
  "manualSteeringAngle defaultConfig = 0" "manualRotationSpeed defaultConfig = 0.05"
  by (simp_all add: defaultConfig_def)

lemma example_idle_accumulators:
  "steeringAngleRef (frames defaultConfig [{}] (loadCallback exampleModel initialViewer)) = 0"
  "wheelRotationRef (frames defaultConfig [{}] (loadCallback exampleModel initialViewer)) = 0.05"
  by (simp_all add: frames_def steeringAngleRef_frame wheelRotationRef_frame
      accumulators_loadCallback initialViewer_def steeringUpdate_def steerLeftHeld_def
      steerRightHeld_def defaultConfig_fields)

lemma wheelQ_rear:
  "\<not> isFrontWheel n \<Longrightarrow>
   wheelQ cfg sa wr n e = multiply (setFromEuler e) (setFromAxisAngle (axisVec (rotationAxis cfg)) wr)"
  by (simp add: wheelQ_def steeredQ_def)



lemma four_names_selected:
  "n \<in> {''wheel_front_left'', ''wheel_front_right'', ''wheel_rear_left'', ''wheel_rear_right''}
   \<Longrightarrow> startsWith n ''wheel_''"
  by (auto simp: startsWith_def)

subsection \<open>Composition of the orientation\<close>

text \<open>
  Claim C1. After every frame of every run that follows the load callback, the
  orientation of every selected wheel is the rest orientation (the stored initial
  rotation as a quaternion), times the steering rotation, times the rolling rotation for
  a front wheel, and the rest orientation times the rolling rotation for any other wheel,
  with the steering angle and the roll angle of that frame. The right-hand side does not
  mention the orientation the node had before: the frame overwrites it.
\<close>

theorem wheel_orientation_recomputed:
  assumes "i \<in> set (wheelsRef (loadCallback model st0))" and "ks \<noteq> []"
    and "st = frames cfg ks (loadCallback model st0)"
  shows "quaternion (scene st ! i) =
     (let n = name (model ! i);
          restOrientation = setFromEuler (restRotation (model ! i));
          steerRotation = setFromAxisAngle (axisVec (steeringAxis cfg))
                            (finalSteeringAngle cfg (steeringAngleRef st) n);
          rollRotation = setFromAxisAngle (axisVec (rotationAxis cfg)) (wheelRotationRef st)
      in if isFrontWheel n
         then multiply (multiply restOrientation steerRotation) rollRotation
         else multiply restOrientation rollRotation)"
  using wheel_after_frames [OF assms(1,2), of cfg]
  by (simp add: assms(3) wheelQ_def steeredQ_def Let_def)

theorem wheel_orientation_recomputed_witness:
  "1 \<in> set (wheelsRef (loadCallback exampleModel initialViewer)) \<and> [{''a''}] \<noteq> [] \<and>
   quaternion (scene (frames defaultConfig [{''a''}] (loadCallback exampleModel initialViewer)) ! 1) =
     multiply (setFromAxisAngle \<lparr>vx = 0, vy = 1, vz = 0\<rparr> (- 0.05))
              (setFromAxisAngle \<lparr>vx = 1, vy = 0, vz = 0\<rparr> 0.05)"
proof -
  have sel: "1 \<in> set (wheelsRef (loadCallback exampleModel initialViewer))"
    by (simp add: example_wheels)
  have ne: "[{''a''}] \<noteq> ([] :: string set list)" by simp
  have sa: "steeringAngleRef (frames defaultConfig [{''a''}] (loadCallback exampleModel initialViewer)) = 0.05"
    using pi_ge_two
    by (simp add: frames_def steeringAngleRef_frame accumulators_loadCallback initialViewer_def
        steeringUpdate_def steerLeftHeld_def steeringSpeed_def maxSteeringAngle_def)
  have wr: "wheelRotationRef (frames defaultConfig [{''a''}] (loadCallback exampleModel initialViewer)) = 0.05"
    by (simp add: wheelRotationRef_frames accumulators_loadCallback initialViewer_def
        defaultConfig_def)
  have name1: "name (exampleModel ! 1) = ''wheel_front_right''"
    and rest1: "setFromEuler (restRotation (exampleModel ! 1)) = identityQ"
    by (simp_all add: example_names example_rest)
  have cfg: "steeringAxis defaultConfig = AxisY" "rotationAxis defaultConfig = AxisX"
    "manualSteeringAngle defaultConfig = 0"
    by (simp_all add: defaultConfig_def)
  have "quaternion (scene (frames defaultConfig [{''a''}] (loadCallback exampleModel initialViewer)) ! 1) =
     multiply (setFromAxisAngle \<lparr>vx = 0, vy = 1, vz = 0\<rparr> (- 0.05))
              (setFromAxisAngle \<lparr>vx = 1, vy = 0, vz = 0\<rparr> 0.05)"
    using wheel_orientation_recomputed [OF sel ne refl, of defaultConfig]
    unfolding sa wr name1 rest1 cfg Let_def
    by (simp add: multiply_identityQ isFrontWheel_def finalSteeringAngle_def isRightWheel_def
        axisVec_def cfg)
  with sel show ?thesis by simp
qed

subsection \<open>Mirroring of the front right wheel\<close>

text \<open>
  Claim C4. For every steering angle and configuration the angle handed to the steering
  rotation of \<open>wheel_front_right\<close> is the negation of the one of \<open>wheel_front_left\<close>. With
  an authored rotation of zero (in any Euler order), steering angle 0.3, manual offset 0
  and steering axis Y, the quaternion of the front right wheel before the rolling
  rotation is the rotation of -0.3 about the Y axis.
\<close>

theorem front_right_mirrors_front_left:
  "finalSteeringAngle cfg steeringAngle ''wheel_front_right''
     = - finalSteeringAngle cfg steeringAngle ''wheel_front_left'' \<and>
   steeredQ (cfg\<lparr>steeringAxis := AxisY, manualSteeringAngle := 0\<rparr>) 0.3 ''wheel_front_right''
       \<lparr>ex = 0, ey = 0, ez = 0, order = ord\<rparr>
     = setFromAxisAngle \<lparr>vx = 0, vy = 1, vz = 0\<rparr> (- 0.3)"
  by (simp add: finalSteeringAngle_def isRightWheel_def steeredQ_def isFrontWheel_def
      setFromEuler_zero multiply_identityQ axisVec_def)

subsection \<open>Rear wheels\<close>

text \<open>
  Claim C5. Take a selected node named \<open>wheel_rear_left\<close> or \<open>wheel_rear_right\<close> and two
  runs of the same number of frames on the same model, which may differ in the starting
  steering angle, in the keys held in each frame, in the manual steering offset and in the
  steering axis: the node has the same orientation after both. After a run of at least
  one frame that orientation is the rest orientation times the rotation of the roll angle
  about the roll axis.
\<close>

theorem rear_wheels_ignore_steering:
  assumes sel: "i \<in> set (wheelsRef (loadCallback model st0))"
    and rear: "name (model ! i) = ''wheel_rear_left'' \<or> name (model ! i) = ''wheel_rear_right''"
    and len: "length ks' = length ks"
  shows "quaternion (scene (frames (cfg\<lparr>steeringAxis := ax, manualSteeringAngle := m\<rparr>) ks'
                       (loadCallback model (st0\<lparr>steeringAngleRef := a\<rparr>))) ! i)
           = quaternion (scene (frames cfg ks (loadCallback model st0)) ! i) \<and>
         (ks \<noteq> [] \<longrightarrow>
            quaternion (scene (frames cfg ks (loadCallback model st0)) ! i)
              = multiply (setFromEuler (restRotation (model ! i)))
                  (setFromAxisAngle (axisVec (rotationAxis cfg))
                     (wheelRotationRef st0 + real (length ks) * manualRotationSpeed cfg)))"
proof (cases "ks = []")
  case True
  with len have "ks' = []" by simp
  with True show ?thesis by (simp add: frames_Nil scene_loadCallback)
next
  case False
  with len have ne': "ks' \<noteq> []" by auto
  have sel': "i \<in> set (wheelsRef (loadCallback model (st0\<lparr>steeringAngleRef := a\<rparr>)))"
    using sel by (simp add: wheelsRef_loadCallback)
  have nf: "\<not> isFrontWheel (name (model ! i))"
    using rear by (auto simp: isFrontWheel_def)
  have one: "quaternion (scene (frames cfg ks (loadCallback model st0)) ! i)
              = multiply (setFromEuler (restRotation (model ! i)))
                  (setFromAxisAngle (axisVec (rotationAxis cfg))
                     (wheelRotationRef st0 + real (length ks) * manualRotationSpeed cfg))"
    by (simp add: wheel_after_frames [OF sel False] wheelQ_rear [OF nf] wheelRotationRef_frames
        accumulators_loadCallback)
  have two: "quaternion (scene (frames (cfg\<lparr>steeringAxis := ax, manualSteeringAngle := m\<rparr>) ks'
                       (loadCallback model (st0\<lparr>steeringAngleRef := a\<rparr>))) ! i)
              = multiply (setFromEuler (restRotation (model ! i)))
                  (setFromAxisAngle (axisVec (rotationAxis cfg))
                     (wheelRotationRef st0 + real (length ks) * manualRotationSpeed cfg))"
    by (simp add: wheel_after_frames [OF sel' ne'] wheelQ_rear [OF nf] wheelRotationRef_frames
        accumulators_loadCallback len)
  from one two show ?thesis by simp
qed

theorem rear_wheels_ignore_steering_witness:
  "2 \<in> set (wheelsRef (loadCallback exampleModel initialViewer)) \<and>
   name (exampleModel ! 2) = ''wheel_rear_left'' \<and>
   length [{''a''}] = length [{} :: string set] \<and>
   quaternion (scene (frames (defaultConfig\<lparr>steeringAxis := AxisZ, manualSteeringAngle := 0.5\<rparr>)
                  [{''a''}] (loadCallback exampleModel (initialViewer\<lparr>steeringAngleRef := 0.3\<rparr>))) ! 2)
     = quaternion (scene (frames defaultConfig [{}] (loadCallback exampleModel initialViewer)) ! 2) \<and>
   quaternion (scene (frames defaultConfig [{}] (loadCallback exampleModel initialViewer)) ! 2)
     = setFromAxisAngle \<lparr>vx = 1, vy = 0, vz = 0\<rparr> 0.05"
proof -
  have sel: "2 \<in> set (wheelsRef (loadCallback exampleModel initialViewer))"
    by (simp add: example_wheels)
  have rear: "name (exampleModel ! 2) = ''wheel_rear_left'' \<or>
              name (exampleModel ! 2) = ''wheel_rear_right''"
    by (simp add: example_names)
  have len: "length [{''a''}] = length [{} :: string set]" by simp
  have wr0: "wheelRotationRef initialViewer = 0" by (simp add: initialViewer_def)
  have "quaternion (scene (frames (defaultConfig\<lparr>steeringAxis := AxisZ, manualSteeringAngle := 0.5\<rparr>)
                  [{''a''}] (loadCallback exampleModel (initialViewer\<lparr>steeringAngleRef := 0.3\<rparr>))) ! 2)
     = quaternion (scene (frames defaultConfig [{}] (loadCallback exampleModel initialViewer)) ! 2) \<and>
   quaternion (scene (frames defaultConfig [{}] (loadCallback exampleModel initialViewer)) ! 2)
     = setFromAxisAngle \<lparr>vx = 1, vy = 0, vz = 0\<rparr> 0.05"
    using rear_wheels_ignore_steering [OF sel rear len, where cfg = defaultConfig and ax = AxisZ
      and m = "0.5" and a = "0.3"]
    unfolding example_rest
    by (simp add: multiply_identityQ axisVec_def wr0 defaultConfig_fields)
  with sel show ?thesis by (simp add: example_names)
qed

subsection \<open>The rolling rotation\<close>



subsection \<open>Selection of the wheels\<close>

text \<open>
  Claim C9, as stated, at the example model: the node \<open>wheel_spare\<close> is none of the four
  names, yet the load callback selects it and one frame changes its orientation.
\<close>

theorem spare_wheel_counterexample:
  "name (exampleModel ! 3) = ''wheel_spare'' \<and>
   ''wheel_spare'' \<notin> {''wheel_front_left'', ''wheel_front_right'',
                          ''wheel_rear_left'', ''wheel_rear_right''} \<and>
   3 \<in> set (wheelsRef (loadCallback exampleModel initialViewer)) \<and>
   quaternion (scene (frames defaultConfig [{}] (loadCallback exampleModel initialViewer)) ! 3)
     \<noteq> quaternion (exampleModel ! 3)"
proof -
  have sel: "3 \<in> set (wheelsRef (loadCallback exampleModel initialViewer))"
    by (simp add: example_wheels)
  have nf: "\<not> isFrontWheel (name (exampleModel ! 3))"
    by (simp add: example_names isFrontWheel_def)
  have q: "quaternion (scene (frames defaultConfig [{}] (loadCallback exampleModel initialViewer)) ! 3)
          = setFromAxisAngle \<lparr>vx = 1, vy = 0, vz = 0\<rparr> 0.05"
    unfolding wheel_after_frames [OF sel, where ks = "[{}]" and cfg = defaultConfig, simplified]
      example_idle_accumulators wheelQ_rear [OF nf] example_rest
    by (simp add: multiply_identityQ defaultConfig_fields axisVec_def)
  have "0 < sin (0.025 :: real)"
    using pi_ge_two by (intro sin_gt_zero) simp_all
  then have "setFromAxisAngle \<lparr>vx = 1, vy = 0, vz = 0\<rparr> 0.05 \<noteq> identityQ"
    by (simp add: setFromAxisAngle_def identityQ_def Let_def)
  with q sel show ?thesis by (simp add: example_names example_quaternion)
qed

text \<open>
  Claim C9, amended. The load callback selects exactly the nodes whose name starts with
  \<open>wheel_\<close>; the nodes named \<open>wheel_front_left\<close>, \<open>wheel_front_right\<close>, \<open>wheel_rear_left\<close>
  and \<open>wheel_rear_right\<close> are among them. A node whose name does not start with \<open>wheel_\<close>
  is not selected, and no run of frames changes it.
\<close>

theorem wheels_selected_by_prefix:
  "set (wheelsRef (loadCallback model st0))
     = {i. i < length model \<and> startsWith (name (model ! i)) ''wheel_''} \<and>
   (\<forall>j. j < length model \<and>
        name (model ! j) \<in> {''wheel_front_left'', ''wheel_front_right'',
                             ''wheel_rear_left'', ''wheel_rear_right''}
        \<longrightarrow> j \<in> set (wheelsRef (loadCallback model st0))) \<and>
   (\<forall>j. j < length model \<and> \<not> startsWith (name (model ! j)) ''wheel_''
        \<longrightarrow> j \<notin> set (wheelsRef (loadCallback model st0)) \<and>
            scene (frames cfg ks (loadCallback model st0)) ! j = model ! j)"
proof (intro conjI allI impI)
  show "set (wheelsRef (loadCallback model st0))
     = {i. i < length model \<and> startsWith (name (model ! i)) ''wheel_''}"
    by (rule wheelsRef_loadCallback)
next
  fix j
  assume "j < length model \<and>
        name (model ! j) \<in> {''wheel_front_left'', ''wheel_front_right'',
                             ''wheel_rear_left'', ''wheel_rear_right''}"
  then show "j \<in> set (wheelsRef (loadCallback model st0))"
    using four_names_selected [of "name (model ! j)"] by (simp add: wheelsRef_loadCallback)
next
  fix j
  assume j: "j < length model \<and> \<not> startsWith (name (model ! j)) ''wheel_''"
  then show out: "j \<notin> set (wheelsRef (loadCallback model st0))"
    by (simp add: wheelsRef_loadCallback)
  then show "scene (frames cfg ks (loadCallback model st0)) ! j = model ! j"
    using j by (simp add: frames_untouched scene_loadCallback)
qed

theorem wheels_selected_by_prefix_witness:
  "set (wheelsRef (loadCallback exampleModel initialViewer)) = {1, 2, 3} \<and>
   1 < length exampleModel \<and> name (exampleModel ! 1) = ''wheel_front_right'' \<and>
   0 < length exampleModel \<and> \<not> startsWith (name (exampleModel ! 0)) ''wheel_'' \<and>
   scene (frames defaultConfig [{}] (loadCallback exampleModel initialViewer)) ! 0
     = exampleModel ! 0"
proof -
  have a: "1 < length exampleModel \<and> name (exampleModel ! 1) \<in>
            {''wheel_front_left'', ''wheel_front_right'', ''wheel_rear_left'', ''wheel_rear_right''}"
    by (simp add: exampleModel_def)
  have b: "0 < length exampleModel \<and> \<not> startsWith (name (exampleModel ! 0)) ''wheel_''"
    by (simp add: exampleModel_def startsWith_def)
  from wheels_selected_by_prefix [where model = exampleModel and ?st0.0 = initialViewer
      and cfg = defaultConfig and ks = "[{}]"] a b
  have "scene (frames defaultConfig [{}] (loadCallback exampleModel initialViewer)) ! 0
     = exampleModel ! 0" and "1 \<in> set (wheelsRef (loadCallback exampleModel initialViewer))"
    by blast+
  with a b show ?thesis by (simp add: example_wheels example_names)
qed

end
